theory Spec2Isabelle
  imports Complex_Main "HOL-Library.Multiset" "HOL-Library.Log_Nat"
begin

section \<open>JavaScript numbers\<close>

text \<open>
  A JavaScript number is an IEEE-754 double. A finite double is a rational, so finite
  numbers are modelled as \<open>rat\<close>, and every arithmetic operation of the source is the
  exact operation followed by a rounding function \<open>rnd\<close>. \<open>f64\<close> rounds to the nearest
  double (53-bit significand, ties to even, gradual underflow below \<open>2^-1022\<close>);
  overflow to Infinity is outside the model, which covers finite values only.
  The two non-numbers the code can produce are values of their own: reading an array
  out of range gives \<open>undefined\<close>, and arithmetic on \<open>undefined\<close> gives \<open>NaN\<close>.
  Nothing in the modelled code throws on these.
\<close>

datatype jsval = Num rat | NaN | Undefined

definition pow2 :: "int \<Rightarrow> rat" where
  "pow2 e = (if 0 \<le> e then 2 ^ nat e else 1 / 2 ^ nat (- e))"

definition ilog2 :: "rat \<Rightarrow> int" where
  \<comment> \<open>\<open>\<lfloor>log\<^sub>2 \<bar>x\<bar>\<rfloor>\<close> for \<open>x \<noteq> 0\<close>, from the bit lengths of numerator and denominator\<close>
  "ilog2 x = (let (a, b) = quotient_of \<bar>x\<bar>;
                  e0 = bitlen a - bitlen b
              in if pow2 e0 \<le> \<bar>x\<bar> then e0 else e0 - 1)"

definition round_half_even :: "rat \<Rightarrow> int" where
  "round_half_even x =
     (let f = \<lfloor>x\<rfloor>; d = x - of_int f
      in if d < 1 / 2 then f else if 1 / 2 < d then f + 1 else if even f then f else f + 1)"

definition f64 :: "rat \<Rightarrow> rat" where
  "f64 x = (if x = 0 then 0
            else let u = pow2 (max (ilog2 x) (- 1022) - 52)
                 in of_int (round_half_even (x / u)) * u)"

definition js_mul :: "(rat \<Rightarrow> rat) \<Rightarrow> jsval \<Rightarrow> jsval \<Rightarrow> jsval" where
  "js_mul rnd a b = (case a of Num x \<Rightarrow> (case b of Num y \<Rightarrow> Num (rnd (x * y)) | _ \<Rightarrow> NaN)
                     | _ \<Rightarrow> NaN)"

definition js_add :: "(rat \<Rightarrow> rat) \<Rightarrow> jsval \<Rightarrow> jsval \<Rightarrow> jsval" where
  "js_add rnd a b = (case a of Num x \<Rightarrow> (case b of Num y \<Rightarrow> Num (rnd (x + y)) | _ \<Rightarrow> NaN)
                     | _ \<Rightarrow> NaN)"

definition js_rem1 :: "rat \<Rightarrow> rat" where
  \<comment> \<open>\<open>x % 1\<close>: the remainder has the sign of the dividend and is exact in doubles\<close>
  "js_rem1 x = x - of_int (if 0 \<le> x then \<lfloor>x\<rfloor> else \<lceil>x\<rceil>)"

definition js_index :: "rat list \<Rightarrow> rat \<Rightarrow> jsval" where
  \<comment> \<open>\<open>xs[p]\<close>: an element for an integer index in range, \<open>undefined\<close> for any other key\<close>
  "js_index xs p =
     (if p = of_int \<lfloor>p\<rfloor> \<and> 0 \<le> p \<and> \<lfloor>p\<rfloor> < int (length xs) then Num (xs ! nat \<lfloor>p\<rfloor>)
      else Undefined)"

section \<open>Quantile estimator (profileDetailsTable.tsx)\<close>

text \<open>
  \<^verbatim>\<open>
  const quantile = (arr: readonly number[], q: number) => {
    const sorted = Array.from(arr).sort((a, b) => a - b);
    const position = q * (sorted.length - 1);
    const int = Math.floor(position);
    const frac = position % 1;
    if (position === int) { return sorted[position]; }
    return sorted[int] * (1 - frac) + sorted[int + 1] * frac;
  };
  \<close>
  The copy is sorted ascending: on finite numbers the comparator \<open>a - b\<close> is a total order,
  so the sorted copy is \<open>sort arr\<close>. \<open>sorted.length - 1\<close>, \<open>Math.floor\<close>, \<open>% 1\<close> and
  \<open>int + 1\<close> are exact in doubles; the products, \<open>1 - frac\<close> and the sum are rounded.
\<close>

definition quantile_in :: "(rat \<Rightarrow> rat) \<Rightarrow> rat list \<Rightarrow> rat \<Rightarrow> jsval" where
  "quantile_in rnd arr q =
     (let sorted = sort arr;
          position = rnd (q * (of_nat (length sorted) - 1));
          intp = of_int \<lfloor>position\<rfloor>;
          frac = js_rem1 position
      in if position = intp then js_index sorted position
         else js_add rnd (js_mul rnd (js_index sorted intp) (Num (rnd (1 - frac))))
                         (js_mul rnd (js_index sorted (intp + 1)) (Num frac)))"

definition quantile :: "rat list \<Rightarrow> rat \<Rightarrow> jsval" where
  \<comment> \<open>the function as it runs: double arithmetic\<close>
  "quantile arr q = quantile_in f64 arr q"

text \<open>
  The specification's words: sort ascending, \<open>position = q * (n - 1)\<close>; the element at
  \<open>position\<close> if it is an integer, otherwise the elements at \<open>floor(position)\<close> and
  \<open>floor(position) + 1\<close> weighted by the fractional part. \<open>spec_quantile_in rnd\<close> rounds
  each operation of that formula with \<open>rnd\<close>; \<open>spec_quantile\<close> is the formula in exact
  arithmetic.
\<close>

definition spec_quantile_in :: "(rat \<Rightarrow> rat) \<Rightarrow> rat list \<Rightarrow> rat \<Rightarrow> rat" where
  "spec_quantile_in rnd xs q =
     (let s = sort xs;
          position = rnd (q * of_nat (length xs - 1));
          k = nat \<lfloor>position\<rfloor>;
          w = position - of_int \<lfloor>position\<rfloor>
      in if w = 0 then s ! k
         else rnd (rnd (s ! k * rnd (1 - w)) + rnd (s ! (k + 1) * w)))"

definition spec_quantile :: "rat list \<Rightarrow> rat \<Rightarrow> rat" where
  "spec_quantile xs q = spec_quantile_in (\<lambda>x. x) xs q"

section \<open>Aggregate columns (profileDetailsTable.tsx)\<close>

datatype TableColumnKey =
  Symbol | Image | File | Thread | Type | Self_weight | Total_weight | P75 | P95 | Count

text \<open>
  A collected frame: the rows an aggregate column's \<open>compute\<close> receives. The source casts
  \<open>rows.map(v => v['self weight'])\<close> to \<open>number[]\<close>, so the self weight is a number.
\<close>

record frame =
  symbol :: string
  frame_image :: "string option"
  frame_file :: "string option"
  thread :: string
  frame_type :: string
  self_weight :: rat
  total_weight :: rat

record AggregateColumnConfig =
  key :: TableColumnKey
  compute :: "frame list \<Rightarrow> jsval"

definition p75AggregateColumn :: AggregateColumnConfig where
  "p75AggregateColumn =
     \<lparr>key = P75, compute = (\<lambda>rows. quantile (map self_weight rows) (f64 (75 / 100)))\<rparr>"

definition p95AggregateColumn :: AggregateColumnConfig where
  "p95AggregateColumn =
     \<lparr>key = P95, compute = (\<lambda>rows. quantile (map self_weight rows) (f64 (95 / 100)))\<rparr>"

definition countAggregateColumn :: AggregateColumnConfig where
  "countAggregateColumn = \<lparr>key = Count, compute = (\<lambda>rows. Num (of_nat (length rows)))\<rparr>"

section \<open>JavaScript arrays and objects\<close>

definition js_slice :: "'a list \<Rightarrow> int \<Rightarrow> int \<Rightarrow> 'a list" where
  \<comment> \<open>\<open>xs.slice(start, stop)\<close>: a negative index counts from the end, both are clamped to
    the bounds, and the result is a new array\<close>
  "js_slice xs start stop =
     (let len = int (length xs);
          k = (if start < 0 then max (len + start) 0 else min start len);
          final = (if stop < 0 then max (len + stop) 0 else min stop len)
      in take (nat (final - k)) (drop (nat k) xs))"

text \<open>
  \<open>xs.sort(cmp)\<close> is stable, and a consistent comparator determines its result: each element
  goes before the first element it does not compare greater than.
\<close>

fun js_insort :: "('a \<Rightarrow> 'a \<Rightarrow> int) \<Rightarrow> 'a \<Rightarrow> 'a list \<Rightarrow> 'a list" where
  "js_insort cmp x [] = [x]"
| "js_insort cmp x (y # ys) = (if cmp x y \<le> 0 then x # y # ys else y # js_insort cmp x ys)"

definition js_sort :: "('a \<Rightarrow> 'a \<Rightarrow> int) \<Rightarrow> 'a list \<Rightarrow> 'a list" where
  "js_sort cmp xs = foldr (js_insort cmp) xs []"

text \<open>
  Reading a property of an object literal looks at the object's own properties and then at
  its prototype, \<open>Object.prototype\<close>, whose properties every object literal inherits.
\<close>

datatype 'a js_property = Own 'a | Inherited string | Missing

definition Object_prototype :: "string list" where
  "Object_prototype =
     [''constructor'', ''__defineGetter__'', ''__defineSetter__'', ''hasOwnProperty'',
      ''__lookupGetter__'', ''__lookupSetter__'', ''isPrototypeOf'', ''propertyIsEnumerable'',
      ''toString'', ''valueOf'', ''__proto__'', ''toLocaleString'']"

definition js_get :: "(string \<times> 'a) list \<Rightarrow> string \<Rightarrow> 'a js_property" where
  "js_get obj k =
     (case map_of obj k of
        Some v \<Rightarrow> Own v
      | None \<Rightarrow> if k \<in> set Object_prototype then Inherited k else Missing)"

section \<open>View registry (profileDetailsTable.tsx)\<close>

datatype cell = Str string | Number jsval

type_synonym TableDataRow = "TableColumnKey \<Rightarrow> cell option"

definition row_of_frame :: "frame \<Rightarrow> TableDataRow" where
  \<comment> \<open>a collected frame read as a table row: the same object, by its column keys\<close>
  "row_of_frame f =
     (\<lambda>k. case k of
        Symbol \<Rightarrow> Some (Str (symbol f))
      | Image \<Rightarrow> map_option Str (frame_image f)
      | File \<Rightarrow> map_option Str (frame_file f)
      | Thread \<Rightarrow> Some (Str (thread f))
      | Type \<Rightarrow> Some (Str (frame_type f))
      | Self_weight \<Rightarrow> Some (Number (Num (self_weight f)))
      | Total_weight \<Rightarrow> Some (Number (Num (total_weight f)))
      | _ \<Rightarrow> None)"

datatype order = Asc | Desc

record select_option =
  label :: string
  option_value :: string

record search_options =
  search_key :: "TableColumnKey list"
  placeholder :: string

record sort_options =
  defaultSort :: "TableColumnKey \<times> order"
  sortableColumns :: "TableColumnKey list"

record GroupByOptions =
  columns :: "TableColumnKey list"
  select_option :: select_option
  rightAlignedColumns :: "TableColumnKey list"
  search :: search_options
  sort_options :: sort_options
  transform :: "frame list \<Rightarrow> TableDataRow list"

type_synonym aggregate_fn =
  "frame list \<Rightarrow> TableColumnKey list \<Rightarrow> AggregateColumnConfig list \<Rightarrow> TableDataRow list"

text \<open>
  \<open>aggregate\<close> is imported from \<open>../utils\<close>; the registry takes it as a parameter.
\<close>

definition occurrence_view :: GroupByOptions where
  "occurrence_view =
     \<lparr>columns = [Symbol, Image, File, Thread, Type, Self_weight, Total_weight],
      select_option = \<lparr>label = ''Slowest Functions'', option_value = ''occurrence''\<rparr>,
      rightAlignedColumns = [Self_weight, Total_weight],
      search = \<lparr>search_key = [Symbol], placeholder = ''Search for frames''\<rparr>,
      sort_options = \<lparr>defaultSort = (Self_weight, Desc),
                      sortableColumns = [Self_weight, Total_weight]\<rparr>,
      transform = (\<lambda>data. map row_of_frame (js_slice data 0 500))\<rparr>"

definition symbol_view :: "aggregate_fn \<Rightarrow> GroupByOptions" where
  "symbol_view aggregate =
     \<lparr>columns = [Symbol, Type, Image, P75, P95, Count],
      select_option = \<lparr>label = ''Group by Symbol'', option_value = ''symbol''\<rparr>,
      rightAlignedColumns = [P75, P95, Count],
      search = \<lparr>search_key = [Symbol], placeholder = ''Search for frames''\<rparr>,
      sort_options = \<lparr>defaultSort = (P75, Desc), sortableColumns = [P75, P95, Count]\<rparr>,
      transform = (\<lambda>data. aggregate data [Symbol, Type, Image]
                     [p75AggregateColumn, p95AggregateColumn, countAggregateColumn])\<rparr>"

definition package_view :: "aggregate_fn \<Rightarrow> GroupByOptions" where
  "package_view aggregate =
     \<lparr>columns = [Image, Type, P75, P95, Count],
      select_option = \<lparr>label = ''Group by Package'', option_value = ''package''\<rparr>,
      rightAlignedColumns = [P75, P95, Count],
      search = \<lparr>search_key = [Image], placeholder = ''Search for packages''\<rparr>,
      sort_options = \<lparr>defaultSort = (P75, Desc), sortableColumns = [P75, P95, Count]\<rparr>,
      transform = (\<lambda>data. aggregate data [Type, Image]
                     [p75AggregateColumn, p95AggregateColumn, countAggregateColumn])\<rparr>"

definition file_view :: "aggregate_fn \<Rightarrow> GroupByOptions" where
  "file_view aggregate =
     \<lparr>columns = [File, Type, Image, P75, P95, Count],
      select_option = \<lparr>label = ''Group by File'', option_value = ''file''\<rparr>,
      rightAlignedColumns = [P75, P95, Count],
      search = \<lparr>search_key = [File], placeholder = ''Search for files''\<rparr>,
      sort_options = \<lparr>defaultSort = (P75, Desc), sortableColumns = [P75, P95, Count]\<rparr>,
      transform = (\<lambda>data. aggregate data [Type, Image, File]
                     [p75AggregateColumn, p95AggregateColumn, countAggregateColumn])\<rparr>"

definition GROUP_BY_OPTIONS :: "aggregate_fn \<Rightarrow> (string \<times> GroupByOptions) list" where
  "GROUP_BY_OPTIONS aggregate =
     [(''occurrence'', occurrence_view), (''symbol'', symbol_view aggregate),
      (''package'', package_view aggregate), (''file'', file_view aggregate)]"

text \<open>
  \<^verbatim>\<open>const groupByView = GROUP_BY_OPTIONS[groupByViewKey] ?? GROUP_BY_OPTIONS.occurrence;\<close>
  \<open>??\<close> takes its right operand only when the left one is \<open>null\<close> or \<open>undefined\<close>.
\<close>

definition groupByView :: "aggregate_fn \<Rightarrow> string \<Rightarrow> GroupByOptions js_property" where
  "groupByView aggregate groupByViewKey =
     (case js_get (GROUP_BY_OPTIONS aggregate) groupByViewKey of
        Missing \<Rightarrow> js_get (GROUP_BY_OPTIONS aggregate) ''occurrence''
      | v \<Rightarrow> v)"

section \<open>Pipeline stages of ProfileDetailsTable\<close>

definition RESULTS_PER_PAGE :: int where
  "RESULTS_PER_PAGE = 50"

text \<open>
  \<^verbatim>\<open>const data = sortedData.slice(cursor, cursor + RESULTS_PER_PAGE);\<close>
  where \<open>cursor = parseInt(paginationCursor, 10) || 0\<close> is an integer.
\<close>

definition page_data :: "'a list \<Rightarrow> int \<Rightarrow> 'a list" where
  "page_data sortedData cursor = js_slice sortedData cursor (cursor + RESULTS_PER_PAGE)"

text \<open>
  Arrays are objects with identity: a store maps an address to the array's elements.
  \<open>filter\<close> and \<open>slice\<close> allocate a new array; \<open>sort\<close> reorders the array it is called on
  and returns that same array.
  \<^verbatim>\<open>
  const filteredData = useMemo(() => filteredDataBySearch.filter(filterPredicate), ...);
  const sortedData = useMemo(() => filteredData.sort(sortCompareFn), ...);
  const data = sortedData.slice(cursor, cursor + RESULTS_PER_PAGE);
  \<close>
\<close>

type_synonym 'a store = "'a list list"

definition alloc :: "'a list \<Rightarrow> 'a store \<Rightarrow> nat \<times> 'a store" where
  "alloc xs h = (length h, h @ [xs])"

definition filter_stage :: "('a \<Rightarrow> bool) \<Rightarrow> nat \<Rightarrow> 'a store \<Rightarrow> nat \<times> 'a store" where
  "filter_stage filterPredicate filteredDataBySearch h =
     alloc (filter filterPredicate (h ! filteredDataBySearch)) h"

definition sort_stage :: "('a \<Rightarrow> 'a \<Rightarrow> int) \<Rightarrow> nat \<Rightarrow> 'a store \<Rightarrow> nat \<times> 'a store" where
  "sort_stage sortCompareFn filteredData h =
     (filteredData, h[filteredData := js_sort sortCompareFn (h ! filteredData)])"

definition page_stage :: "int \<Rightarrow> nat \<Rightarrow> 'a store \<Rightarrow> nat \<times> 'a store" where
  "page_stage cursor sortedData h = alloc (page_data (h ! sortedData) cursor) h"

text \<open>
  The state the view selector can reach: the query-string parameters of
  \<open>useQuerystringState\<close> (\<open>detailView\<close>, \<open>query\<close>, \<open>cursor\<close>, \<open>type\<close>, \<open>image\<close>), the
  \<open>functionsSort\<close> parameter read by \<open>useSortableColumns\<close>, and the selections held by
  \<open>useColumnFilters\<close>. A setter writes its own parameter; \<open>None\<close> is an unset one.
  \<^verbatim>\<open>
  onChange={option => {
    setSearchQuery('');
    setPaginationCursor(undefined);
    setGroupByView(option.value);
  }}
  \<close>
\<close>

record table_state =
  groupByViewKey :: "string option"
  searchQuery :: "string option"
  paginationCursor :: "string option"
  typeFilter :: "string list option"
  imageFilter :: "string list option"
  functionsSort :: "string option"
  filters_type :: "string list option"
  filters_image :: "string list option"

definition setSearchQuery :: "string option \<Rightarrow> table_state \<Rightarrow> table_state" where
  "setSearchQuery v s = s\<lparr>searchQuery := v\<rparr>"

definition setPaginationCursor :: "string option \<Rightarrow> table_state \<Rightarrow> table_state" where
  "setPaginationCursor v s = s\<lparr>paginationCursor := v\<rparr>"

definition setGroupByView :: "string option \<Rightarrow> table_state \<Rightarrow> table_state" where
  "setGroupByView v s = s\<lparr>groupByViewKey := v\<rparr>"

definition view_onChange :: "select_option \<Rightarrow> table_state \<Rightarrow> table_state" where
  "view_onChange opt s =
     setGroupByView (Some (option_value opt))
       (setPaginationCursor None (setSearchQuery (Some []) s))"

section \<open>Column filter engine\<close>

text \<open>
  Modelled from the spec: the hook \<open>useColumnFilters\<close> (\<open>../hooks/useColumnFilters\<close>), which
  returns \<open>filterPredicate\<close>, is not among the sources. Section 4.6: a row passes iff, for
  every filterable column with a non-empty active selection, \<open>row[column]\<close> is in the
  selection; a column with an empty or unset selection imposes no constraint.
  The table calls it with the columns \<open>['type', 'image']\<close>.
\<close>

definition in_selection :: "string list \<Rightarrow> cell option \<Rightarrow> bool" where
  "in_selection selection v = (case v of Some (Str x) \<Rightarrow> x \<in> set selection | _ \<Rightarrow> False)"

fun filterPredicate ::
  "TableColumnKey list \<Rightarrow> (TableColumnKey \<Rightarrow> string list option) \<Rightarrow> TableDataRow \<Rightarrow> bool" where
  "filterPredicate [] filters row = True"
| "filterPredicate (c # cs) filters row =
     (case filters c of
        None \<Rightarrow> filterPredicate cs filters row
      | Some selection \<Rightarrow>
          if selection = [] then filterPredicate cs filters row
          else if in_selection selection (row c) then filterPredicate cs filters row
          else False)"

definition table_filters ::
  "string list option \<Rightarrow> string list option \<Rightarrow> TableColumnKey \<Rightarrow> string list option" where
  "table_filters type_selection image_selection =
     (\<lambda>c. case c of Type \<Rightarrow> type_selection | Image \<Rightarrow> image_selection | _ \<Rightarrow> None)"

definition filteredData ::
  "string list option \<Rightarrow> string list option \<Rightarrow> TableDataRow list \<Rightarrow> TableDataRow list" where
  "filteredData type_selection image_selection filteredDataBySearch =
     filter (filterPredicate [Type, Image] (table_filters type_selection image_selection))
       filteredDataBySearch"

section \<open>Sort of the transactions table (profileTransactionsTable.tsx)\<close>

text \<open>
  Modelled from the spec: \<open>decodeScalar\<close> (\<open>sentry/utils/queryString\<close>) is not among the
  sources. Section 6: an empty or absent parameter means the default; any other string is
  the parameter's value.
\<close>

definition decodeScalar :: "string \<Rightarrow> string \<Rightarrow> string" where
  "decodeScalar v fallback = (if v = [] then fallback else v)"

definition SORTABLE_COLUMNS :: "string list" where
  "SORTABLE_COLUMNS =
     [''project'', ''transaction'', ''count()'', ''p50()'', ''p75()'', ''p90()'', ''p95()'',
      ''p99()'', ''last_seen()'']"

record GridColumnSortBy =
  sort_key :: string
  sort_order :: order

text \<open>
  \<^verbatim>\<open>
  let column = decodeScalar(props.sort, '-count()');
  let order: 'asc' | 'desc' = 'asc' as const;
  if (column.startsWith('-')) { column = column.substring(1); order = 'desc' as const; }
  if (!SORTABLE_COLUMNS.has(column as any)) { column = 'count()'; }
  return {key: column as TableColumnKey, order};
  \<close>
\<close>

definition transactions_sort :: "string \<Rightarrow> GridColumnSortBy" where
  "transactions_sort props_sort =
     (let column = decodeScalar props_sort ''-count()'';
          (column, order) =
            (case column of CHR ''-'' # rest \<Rightarrow> (rest, Desc) | _ \<Rightarrow> (column, Asc));
          column = (if column \<notin> set SORTABLE_COLUMNS then ''count()'' else column)
      in \<lparr>sort_key = column, sort_order = order\<rparr>)"

section \<open>Concrete inputs\<close>

definition frameA :: frame where
  "frameA = \<lparr>symbol = ''main'', frame_image = Some ''app'', frame_file = None, thread = ''0'',
     frame_type = ''application'', self_weight = 10, total_weight = 40\<rparr>"

definition frameB :: frame where
  "frameB = \<lparr>symbol = ''read'', frame_image = Some ''libc'', frame_file = None, thread = ''0'',
     frame_type = ''system'', self_weight = 30, total_weight = 30\<rparr>"

definition state0 :: table_state where
  "state0 = \<lparr>groupByViewKey = Some ''occurrence'', searchQuery = Some ''main'',
     paginationCursor = Some ''50'', typeFilter = Some [''application''], imageFilter = None,
     functionsSort = Some ''-total weight'', filters_type = Some [''application''],
     filters_image = None\<rparr>"

definition symbol_option :: select_option where
  "symbol_option = \<lparr>label = ''Group by Symbol'', option_value = ''symbol''\<rparr>"

section \<open>The rounding model on known doubles\<close>

lemma f64_zero: "f64 0 = 0"
  by (simp add: f64_def)

lemma f64_one_tenth: "f64 (1 / 10) = 3602879701896397 / 36028797018963968"
  by code_simp

lemma f64_exact_small: "f64 (3 / 4) = 3 / 4" "f64 (1 / 2) = 1 / 2" "f64 40 = 40"
  by code_simp+

text \<open>
  Rounding keeps a value in \<open>[0, k]\<close> when \<open>k\<close> is a natural number below \<open>2^53\<close>: such a \<open>k\<close>
  is a multiple of the unit \<open>u\<close> that \<open>x \<le> k\<close> is rounded to.
\<close>

lemma pow2_powi: "pow2 e = 2 powi e"
  by (simp add: pow2_def power_int_def field_simps)

lemma pow2_pos: "0 < pow2 e"
  by (simp add: pow2_def)

lemma round_half_even_le:
  assumes "y \<le> of_int j" shows "round_half_even y \<le> j"
proof (cases "y = of_int j")
  case True
  then show ?thesis by (simp add: round_half_even_def)
next
  case False
  then have "y < of_int j" using assms by simp
  then have "\<lfloor>y\<rfloor> < j" by (simp add: floor_less_iff)
  then show ?thesis by (simp add: round_half_even_def Let_def)
qed

lemma round_half_even_nonneg: "0 \<le> y \<Longrightarrow> 0 \<le> round_half_even y"
  by (simp add: round_half_even_def Let_def)

lemma ilog2_lower:
  assumes "x \<noteq> 0" shows "pow2 (ilog2 x) \<le> \<bar>x\<bar>"
proof -
  obtain a b where ab: "quotient_of \<bar>x\<bar> = (a, b)" by (cases "quotient_of \<bar>x\<bar>")
  have b0: "0 < b" using ab by (rule quotient_of_denom_pos)
  have xab: "\<bar>x\<bar> = of_int a / of_int b" using ab by (rule quotient_of_div)
  have "0 < \<bar>x\<bar>" using assms by simp
  then have a0: "0 < a" using b0 unfolding xab by (simp add: zero_less_divide_iff)
  have la: "2 ^ nat (bitlen a - 1) \<le> a" using bitlen_bounds[OF a0] by simp
  have lb: "b < 2 ^ nat (bitlen b)" using bitlen_bounds[OF b0] by simp
  have la1: "1 \<le> bitlen a" using a0 by (simp add: bitlen_alt_def)
  have lb0: "0 \<le> bitlen b" by (rule bitlen_nonneg)
  have A: "(2::rat) powi (bitlen a - 1) \<le> of_int a"
  proof -
    have "(2::rat) powi (bitlen a - 1) = of_int (2 ^ nat (bitlen a - 1))"
      using la1 by (simp add: power_int_def)
    also have "\<dots> \<le> of_int a" using la by (simp only: of_int_le_iff)
    finally show ?thesis .
  qed
  have B: "of_int b \<le> (2::rat) powi (bitlen b)"
  proof -
    have "(of_int b :: rat) \<le> of_int (2 ^ nat (bitlen b))" using lb by (simp only: of_int_le_iff)
    also have "\<dots> = (2::rat) powi (bitlen b)" using lb0 by (simp add: power_int_def)
    finally show ?thesis .
  qed
  have "(2::rat) powi (bitlen a - bitlen b - 1) = 2 powi (bitlen a - 1) / 2 powi (bitlen b)"
    using power_int_diff[of "2::rat" "bitlen a - 1" "bitlen b"] by (simp add: algebra_simps)
  also have "\<dots> \<le> of_int a / of_int b"
    using A B a0 b0 by (intro frac_le) simp_all
  finally have low: "pow2 (bitlen a - bitlen b - 1) \<le> \<bar>x\<bar>" by (simp add: pow2_powi xab)
  show ?thesis using low by (simp add: ilog2_def ab Let_def)
qed

lemma f64_range:
  assumes x0: "0 \<le> x" and xk: "x \<le> of_nat k" and k: "k < 2 ^ 53"
  shows "0 \<le> f64 x \<and> f64 x \<le> of_nat k"
proof (cases "x = 0")
  case True
  then show ?thesis by (simp add: f64_def)
next
  case False
  define E where "E = max (ilog2 x) (- 1022) - 52"
  define u where "u = pow2 E"
  have u0: "0 < u" unfolding u_def by (rule pow2_pos)
  have f: "f64 x = of_int (round_half_even (x / u)) * u"
    using False by (simp add: f64_def Let_def u_def E_def)
  have E0: "E \<le> 0"
  proof (rule ccontr)
    assume "\<not> E \<le> 0"
    then have "53 \<le> ilog2 x" by (simp add: E_def max_def split: if_splits)
    then have "(2::rat) powi 53 \<le> 2 powi (ilog2 x)" by (intro power_int_increasing) simp_all
    also have "\<dots> \<le> \<bar>x\<bar>" using ilog2_lower[OF False] by (simp add: pow2_powi)
    also have "\<dots> \<le> of_nat k" using x0 xk by simp
    also have "\<dots> < of_nat (2 ^ 53)" using k by (simp only: of_nat_less_iff)
    finally show False by simp
  qed
  have iu: "1 / u = of_int (2 ^ nat (- E))" using E0 by (simp add: u_def pow2_def)
  have ku: "of_nat k / u = (of_int (int k * 2 ^ nat (- E)) :: rat)"
  proof -
    have "of_nat k / u = of_nat k * (1 / u)" by simp
    also have "\<dots> = of_nat k * of_int (2 ^ nat (- E))" by (simp only: iu)
    also have "\<dots> = of_int (int k * 2 ^ nat (- E))" by simp
    finally show ?thesis .
  qed
  have "x / u \<le> of_nat k / u" using xk u0 by (simp add: divide_right_mono)
  then have "x / u \<le> of_int (int k * 2 ^ nat (- E))" by (simp only: ku)
  then have "round_half_even (x / u) \<le> int k * 2 ^ nat (- E)" by (rule round_half_even_le)
  then have "(of_int (round_half_even (x / u)) :: rat) \<le> of_int (int k * 2 ^ nat (- E))"
    by (simp only: of_int_le_iff)
  then have "of_int (round_half_even (x / u)) * u \<le> of_nat k / u * u"
    using u0 by (simp only: ku mult_le_cancel_right_pos)
  also have "\<dots> = of_nat k" using u0 by simp
  finally have up: "f64 x \<le> of_nat k" by (simp add: f)
  have "0 \<le> x / u" using x0 u0 by simp
  then have "0 \<le> round_half_even (x / u)" by (rule round_half_even_nonneg)
  then have "0 \<le> f64 x" using u0 by (simp add: f)
  then show ?thesis using up by simp
qed

text \<open>
  The exponent is the binary exponent of \<open>x\<close>, and the rounded value is within half a unit
  in the last place of \<open>x\<close>.
\<close>

lemma ilog2_upper:
  assumes "x \<noteq> 0" shows "\<bar>x\<bar> < pow2 (ilog2 x + 1)"
proof -
  obtain a b where ab: "quotient_of \<bar>x\<bar> = (a, b)" by (cases "quotient_of \<bar>x\<bar>")
  have b0: "0 < b" using ab by (rule quotient_of_denom_pos)
  have xab: "\<bar>x\<bar> = of_int a / of_int b" using ab by (rule quotient_of_div)
  have "0 < \<bar>x\<bar>" using assms by simp
  then have a0: "0 < a" using b0 unfolding xab by (simp add: zero_less_divide_iff)
  have la: "a < 2 ^ nat (bitlen a)" using bitlen_bounds[OF a0] by simp
  have lb: "2 ^ nat (bitlen b - 1) \<le> b" using bitlen_bounds[OF b0] by simp
  have la0: "0 \<le> bitlen a" by (rule bitlen_nonneg)
  have lb1: "1 \<le> bitlen b" using b0 by (simp add: bitlen_alt_def)
  have A: "of_int a < (2::rat) powi (bitlen a)"
  proof -
    have "(of_int a :: rat) < of_int (2 ^ nat (bitlen a))" using la by (simp only: of_int_less_iff)
    also have "\<dots> = (2::rat) powi (bitlen a)" using la0 by (simp add: power_int_def)
    finally show ?thesis .
  qed
  have B: "(2::rat) powi (bitlen b - 1) \<le> of_int b"
  proof -
    have "(2::rat) powi (bitlen b - 1) = of_int (2 ^ nat (bitlen b - 1))"
      using lb1 by (simp add: power_int_def)
    also have "\<dots> \<le> of_int b" using lb by (simp only: of_int_le_iff)
    finally show ?thesis .
  qed
  have B0: "0 < (2::rat) powi (bitlen b - 1)" by simp
  have "of_int a / of_int b < (2::rat) powi (bitlen a) / 2 powi (bitlen b - 1)"
    using A B B0 a0 b0 by (intro frac_less) simp_all
  also have "\<dots> = (2::rat) powi (bitlen a - bitlen b + 1)"
    using power_int_diff[of "2::rat" "bitlen a" "bitlen b - 1"] by (simp add: algebra_simps)
  finally have up: "\<bar>x\<bar> < pow2 (bitlen a - bitlen b + 1)" by (simp add: pow2_powi xab)
  show ?thesis using up by (auto simp add: ilog2_def ab Let_def)
qed

lemma round_half_even_error: "\<bar>of_int (round_half_even y) - y\<bar> \<le> 1 / 2"
proof -
  define d where "d = y - of_int \<lfloor>y\<rfloor>"
  have d0: "0 \<le> d" and d1: "d < 1" unfolding d_def by linarith+
  consider "d < 1 / 2" | "1 / 2 < d" | "d = 1 / 2" by linarith
  then show ?thesis
  proof cases
    case 1
    then have "of_int (round_half_even y) - y = - d"
      by (simp add: round_half_even_def Let_def d_def)
    then show ?thesis using 1 d0 by simp
  next
    case 2
    then have "of_int (round_half_even y) - y = 1 - d"
      by (simp add: round_half_even_def Let_def d_def)
    then show ?thesis using 2 d1 by simp
  next
    case 3
    then have "of_int (round_half_even y) - y = - d \<or> of_int (round_half_even y) - y = 1 - d"
      by (simp add: round_half_even_def Let_def d_def)
    then show ?thesis using 3 by auto
  qed
qed

lemma f64_error:
  assumes "x \<noteq> 0"
  shows "\<bar>f64 x - x\<bar> \<le> pow2 (max (ilog2 x) (- 1022) - 52) / 2"
proof -
  define u where "u = pow2 (max (ilog2 x) (- 1022) - 52)"
  have u0: "0 < u" unfolding u_def by (rule pow2_pos)
  have f: "f64 x = of_int (round_half_even (x / u)) * u"
    using assms by (simp add: f64_def Let_def u_def)
  have "f64 x - x = (of_int (round_half_even (x / u)) - x / u) * u"
    using u0 by (simp add: f algebra_simps)
  then have "\<bar>f64 x - x\<bar> = \<bar>of_int (round_half_even (x / u)) - x / u\<bar> * u"
    using u0 by (simp add: abs_mult)
  also have "\<dots> \<le> 1 / 2 * u"
    using round_half_even_error[of "x / u"] u0 by (intro mult_right_mono) simp_all
  finally show ?thesis by (simp add: u_def)
qed

section \<open>Quantile estimator\<close>

lemma sort_mset_cong: "mset xs = mset ys \<Longrightarrow> sort xs = sort (ys :: rat list)"
  by (metis sorted_sort mset_sort properties_for_sort)

lemma quantile_in_mset_cong:
  "mset xs = mset ys \<Longrightarrow> quantile_in rnd xs q = quantile_in rnd ys q"
  using sort_mset_cong[of xs ys] mset_eq_length[of xs ys]
  by (simp add: quantile_in_def)

lemma quantile_in_empty: "quantile_in rnd [] q = Undefined \<or> quantile_in rnd [] q = NaN"
  by (simp add: quantile_in_def Let_def js_index_def js_mul_def js_add_def)

lemma quantile_in_singleton: "rnd 0 = 0 \<Longrightarrow> quantile_in rnd [x] q = Num x"
  by (simp add: quantile_in_def Let_def js_index_def)

text \<open>
  Whenever the rounded position lies in \<open>[0, n - 1]\<close> both reads are in range, and the
  function is the specification's formula with the same rounding. The position lies
  there for a non-empty array and \<open>q\<close> in \<open>[0, 1]\<close>, in exact arithmetic and in doubles.
\<close>

lemma quantile_in_refines:
  assumes ne: "xs \<noteq> []"
    and p0: "0 \<le> rnd (q * (of_nat (length xs) - 1))"
    and pu: "rnd (q * (of_nat (length xs) - 1)) \<le> of_nat (length xs) - 1"
  shows "quantile_in rnd xs q = Num (spec_quantile_in rnd xs q)"
proof -
  define n where "n = length xs"
  define p where "p = rnd (q * (of_nat (length xs) - 1))"
  have n1: "1 \<le> n" using ne by (cases xs) (simp_all add: n_def)
  have pn: "of_nat (length xs - 1) = (of_nat (length xs) - 1 :: rat)"
    using n1 by (simp add: n_def)
  have lhs: "quantile_in rnd xs q =
      (if p = of_int \<lfloor>p\<rfloor> then js_index (sort xs) p
       else js_add rnd
              (js_mul rnd (js_index (sort xs) (of_int \<lfloor>p\<rfloor>)) (Num (rnd (1 - js_rem1 p))))
              (js_mul rnd (js_index (sort xs) (of_int \<lfloor>p\<rfloor> + 1)) (Num (js_rem1 p))))"
    unfolding quantile_in_def Let_def p_def length_sort by (rule refl)
  have rhs: "spec_quantile_in rnd xs q =
      (if p - of_int \<lfloor>p\<rfloor> = 0 then sort xs ! nat \<lfloor>p\<rfloor>
       else rnd (rnd (sort xs ! nat \<lfloor>p\<rfloor> * rnd (1 - (p - of_int \<lfloor>p\<rfloor>)))
                 + rnd (sort xs ! (nat \<lfloor>p\<rfloor> + 1) * (p - of_int \<lfloor>p\<rfloor>))))"
    unfolding spec_quantile_in_def Let_def pn p_def by (rule refl)
  have p0': "0 \<le> p" using p0 by (simp add: p_def)
  have pu': "p \<le> of_int (int n - 1)" using pu by (simp add: p_def n_def)
  have fl0: "0 \<le> \<lfloor>p\<rfloor>" using p0' by simp
  have "\<lfloor>p\<rfloor> \<le> \<lfloor>of_int (int n - 1) :: rat\<rfloor>" using pu' by (rule floor_mono)
  then have flu: "\<lfloor>p\<rfloor> \<le> int n - 1" by (simp only: floor_of_int)
  have rem: "js_rem1 p = p - of_int \<lfloor>p\<rfloor>" using p0' by (simp add: js_rem1_def)
  show ?thesis
  proof (cases "p = of_int \<lfloor>p\<rfloor>")
    case True
    have "js_index (sort xs) p = Num (sort xs ! nat \<lfloor>p\<rfloor>)"
      using True p0' flu by (simp add: js_index_def n_def)
    then show ?thesis using True unfolding lhs rhs by simp
  next
    case False
    have "of_int \<lfloor>p\<rfloor> < p" using False of_int_floor_le[of p] by linarith
    then have "of_int \<lfloor>p\<rfloor> < (of_int (int n - 1) :: rat)" using pu' by linarith
    then have fll: "\<lfloor>p\<rfloor> < int n - 1" by (simp only: of_int_less_iff)
    have i1: "js_index (sort xs) (of_int \<lfloor>p\<rfloor>) = Num (sort xs ! nat \<lfloor>p\<rfloor>)"
      using fl0 fll by (simp add: js_index_def n_def)
    have e: "of_int \<lfloor>p\<rfloor> + 1 = (of_int (\<lfloor>p\<rfloor> + 1) :: rat)" by simp
    have i2: "js_index (sort xs) (of_int \<lfloor>p\<rfloor> + 1) = Num (sort xs ! (nat \<lfloor>p\<rfloor> + 1))"
      unfolding e using fl0 fll by (simp add: js_index_def n_def nat_add_distrib del: of_int_add)
    show ?thesis using False unfolding lhs rhs i1 i2 rem
      by (simp add: js_mul_def js_add_def)
  qed
qed

lemma position_range:
  assumes ne: "xs \<noteq> []" and q0: "0 \<le> q" and q1: "q \<le> 1"
  shows "0 \<le> q * (of_nat (length xs) - 1) \<and> q * (of_nat (length xs) - 1) \<le> (of_nat (length xs) - 1 :: rat)"
proof -
  have n1: "1 \<le> length xs" using ne by (cases xs) simp_all
  then have m0: "0 \<le> (of_nat (length xs) - 1 :: rat)" by simp
  have "q * (of_nat (length xs) - 1) \<le> 1 * (of_nat (length xs) - 1)"
    using q1 m0 by (rule mult_right_mono)
  then show ?thesis using q0 m0 by simp
qed

lemma quantile_exact_refines:
  assumes "xs \<noteq> []" and "0 \<le> q" and "q \<le> 1"
  shows "quantile_in (\<lambda>x. x) xs q = Num (spec_quantile xs q)"
  unfolding spec_quantile_def using assms position_range[OF assms]
  by (intro quantile_in_refines) simp_all

lemma quantile_double_refines:
  assumes ne: "xs \<noteq> []" and q0: "0 \<le> q" and q1: "q \<le> 1" and len: "length xs \<le> 2 ^ 32"
  shows "quantile xs q = Num (spec_quantile_in f64 xs q)"
proof -
  have n1: "1 \<le> length xs" using ne by (cases xs) simp_all
  have pn: "of_nat (length xs - 1) = (of_nat (length xs) - 1 :: rat)"
    using n1 by simp
  have "length xs - 1 < 2 ^ 32" using len n1 by simp
  also have "(2::nat) ^ 32 < 2 ^ 53" by simp
  finally have k: "length xs - 1 < 2 ^ 53" .
  have "0 \<le> f64 (q * (of_nat (length xs) - 1))
      \<and> f64 (q * (of_nat (length xs) - 1)) \<le> of_nat (length xs - 1)"
    using position_range[OF ne q0 q1] k by (intro f64_range) (simp_all only: pn)
  then have lo: "0 \<le> f64 (q * (of_nat (length xs) - 1))"
    and hi: "f64 (q * (of_nat (length xs) - 1)) \<le> of_nat (length xs) - 1"
    by (simp_all only: pn)
  show ?thesis
    unfolding quantile_def using ne lo hi by (rule quantile_in_refines)
qed

lemma spec_quantile_examples:
  "spec_quantile [10, 20, 30, 40] (1 / 2) = 25"
  "spec_quantile [10, 20, 30, 40] (3 / 4) = 65 / 2"
  "spec_quantile [10, 20, 30, 40] (99 / 100) = 397 / 10"
  by code_simp+

lemma quantile_p50_value: "quantile [10, 20, 30, 40] (f64 (1 / 2)) = Num 25"
  by code_simp

lemma quantile_p75_value: "quantile [10, 20, 30, 40] (f64 (3 / 4)) = Num (65 / 2)"
  by code_simp

lemma quantile_p99_value:
  "quantile [10, 20, 30, 40] (f64 (99 / 100)) = Num (5587278287706521 / 140737488355328)"
  by code_simp

lemma f64_397_10: "f64 (397 / 10) = 2793639143853261 / 70368744177664"
  by code_simp

text \<open>
  C1, as stated, at \<open>[10, 20, 30, 40]\<close> and \<open>q = 0.99\<close>: the function does not return 39.7,
  neither the rational \<open>397/10\<close> nor the double nearest to it. It returns
  \<open>5587278287706521 / 2^47\<close>, the double printed as 39.699999999999996.
\<close>

theorem quantile_p99_not_exact:
  "quantile [10, 20, 30, 40] (f64 (99 / 100)) \<noteq> Num (397 / 10)
   \<and> quantile [10, 20, 30, 40] (f64 (99 / 100)) \<noteq> Num (f64 (397 / 10))"
  unfolding quantile_p99_value f64_397_10 by simp

text \<open>
  C1 (amended): for every non-empty array and every \<open>q\<close> in \<open>[0, 1]\<close>, the function returns
  the linearly-interpolated order statistic of the specification (sort ascending,
  \<open>position = q * (n - 1)\<close>, the element at an integer position, otherwise the elements at
  \<open>floor(position)\<close> and \<open>floor(position) + 1\<close> weighted by the fractional part) with every
  operation rounded to a double: exactly the specification's value when the arithmetic is
  exact, and always a number. In double arithmetic, as the code runs, \<open>[10, 20, 30, 40]\<close>
  gives 25 at \<open>q = 0.5\<close>, 32.5 at \<open>q = 0.75\<close> and 39.699999999999996 at \<open>q = 0.99\<close> (the
  exact value there is 39.7), and a single-element array gives its element for every \<open>q\<close>.
  The array length is below \<open>2^32\<close>, the bound of every JavaScript array.
\<close>

theorem quantile_interpolated_order_statistic:
  "(xs \<noteq> [] \<and> 0 \<le> q \<and> q \<le> 1 \<longrightarrow> quantile_in (\<lambda>x. x) xs q = Num (spec_quantile xs q))
   \<and> (xs \<noteq> [] \<and> 0 \<le> q \<and> q \<le> 1 \<and> length xs \<le> 2 ^ 32 \<longrightarrow>
        quantile xs q = Num (spec_quantile_in f64 xs q))
   \<and> spec_quantile [10, 20, 30, 40] (1 / 2) = 25
   \<and> spec_quantile [10, 20, 30, 40] (3 / 4) = 65 / 2
   \<and> spec_quantile [10, 20, 30, 40] (99 / 100) = 397 / 10
   \<and> quantile [10, 20, 30, 40] (f64 (1 / 2)) = Num 25
   \<and> quantile [10, 20, 30, 40] (f64 (3 / 4)) = Num (65 / 2)
   \<and> quantile [10, 20, 30, 40] (f64 (99 / 100)) = Num (5587278287706521 / 140737488355328)
   \<and> quantile [x] q' = Num x"
proof -
  have exact: "xs \<noteq> [] \<and> 0 \<le> q \<and> q \<le> 1 \<longrightarrow>
      quantile_in (\<lambda>x. x) xs q = Num (spec_quantile xs q)"
    using quantile_exact_refines[of xs q] by blast
  have double: "xs \<noteq> [] \<and> 0 \<le> q \<and> q \<le> 1 \<and> length xs \<le> 2 ^ 32 \<longrightarrow>
      quantile xs q = Num (spec_quantile_in f64 xs q)"
    using quantile_double_refines[of xs q] by blast
  have single: "quantile [x] q' = Num x"
    unfolding quantile_def using f64_zero by (rule quantile_in_singleton)
  show ?thesis
    using exact double single spec_quantile_examples quantile_p50_value quantile_p75_value
      quantile_p99_value
    by (intro conjI)
qed

theorem quantile_interpolated_order_statistic_witness:
  "quantile_in (\<lambda>x. x) [10, 20, 30, 40] (99 / 100) = Num (397 / 10)
   \<and> quantile [7, 3] (1 / 2) = Num (spec_quantile_in f64 [7, 3] (1 / 2))"
  using quantile_interpolated_order_statistic[of "[10, 20, 30, 40]" "99 / 100"]
    quantile_interpolated_order_statistic[of "[7, 3]" "1 / 2"]
  by simp

text \<open>
  C8: for an empty array the function returns \<open>undefined\<close> (when \<open>q * (0 - 1)\<close> is an
  integer) or \<open>NaN\<close>, for every \<open>q\<close>; it never returns 0, and no operation of it throws.
\<close>

theorem quantile_empty_no_value:
  "(quantile [] q = Undefined \<or> quantile [] q = NaN) \<and> quantile [] q \<noteq> Num 0"
  using quantile_in_empty[of f64 q] by (auto simp: quantile_def)

section \<open>Aggregate columns\<close>

text \<open>
  C9: permuting the frames of a group changes none of the p75, p95 and count aggregates,
  and the count aggregate is the number of frames of the group.
\<close>

theorem aggregates_order_independent:
  assumes "mset rows' = mset rows"
  shows "compute p75AggregateColumn rows' = compute p75AggregateColumn rows
     \<and> compute p95AggregateColumn rows' = compute p95AggregateColumn rows
     \<and> compute countAggregateColumn rows' = compute countAggregateColumn rows
     \<and> compute countAggregateColumn rows = Num (of_nat (length rows))"
proof -
  have "mset (map self_weight rows') = mset (map self_weight rows)"
    using assms by (metis mset_map)
  then have "quantile (map self_weight rows') q = quantile (map self_weight rows) q" for q
    unfolding quantile_def by (rule quantile_in_mset_cong)
  moreover have "length rows' = length rows"
    using assms by (rule mset_eq_length)
  ultimately show ?thesis
    by (simp add: p75AggregateColumn_def p95AggregateColumn_def countAggregateColumn_def)
qed

theorem aggregates_order_independent_witness:
  "compute p75AggregateColumn [frameB, frameA] = compute p75AggregateColumn [frameA, frameB]
     \<and> compute p95AggregateColumn [frameB, frameA] = compute p95AggregateColumn [frameA, frameB]
     \<and> compute countAggregateColumn [frameB, frameA] = compute countAggregateColumn [frameA, frameB]
     \<and> compute countAggregateColumn [frameA, frameB] = Num 2"
proof -
  have "mset [frameB, frameA] = mset [frameA, frameB]" by simp
  from aggregates_order_independent[OF this] show ?thesis by simp
qed

section \<open>Pager\<close>

lemma js_slice_nonneg:
  "0 \<le> start \<Longrightarrow> 0 \<le> n \<Longrightarrow> js_slice xs start (start + n) = take (nat n) (drop (nat start) xs)"
  by (auto simp: js_slice_def Let_def min_def)

lemma page_data_take_drop:
  "0 \<le> cursor \<Longrightarrow> page_data rows cursor = take 50 (drop (nat cursor) rows)"
  using js_slice_nonneg[of cursor 50 rows] by (simp add: page_data_def RESULTS_PER_PAGE_def)

text \<open>
  C2, as stated, at 120 rows and cursor 200: the page is empty; it is not the last page
  \<open>[70, 120)\<close>.
\<close>

theorem page_data_no_clamp:
  "page_data [0..<120] 200 = [] \<and> page_data [0..<120] 200 \<noteq> [70..<120]"
  by (simp add: page_data_take_drop)

text \<open>
  C2 (amended): for a non-negative cursor the page is the slice
  \<open>[cursor, min (cursor + 50) n)\<close> of the rows; a cursor at or beyond the length is not
  clamped and gives the empty page. With 120 rows, cursor 100 gives rows \<open>[100, 120)\<close>.
\<close>

theorem page_data_is_slice:
  "(0 \<le> cursor \<longrightarrow> page_data rows cursor = take 50 (drop (nat cursor) rows))
   \<and> (int (length rows) \<le> cursor \<longrightarrow> page_data rows cursor = [])
   \<and> page_data [0..<120] 100 = [100..<120]"
  by (simp add: page_data_take_drop)

theorem page_data_is_slice_witness:
  "page_data [0..<120] 200 = take 50 (drop 200 [0..<120]) \<and> page_data [0..<120] 200 = []"
  using page_data_is_slice[of 200 "[0..<120]"] by simp

section \<open>Occurrence view\<close>

lemma occurrence_transform:
  "transform occurrence_view data = map row_of_frame (take 500 data)"
  by (simp add: occurrence_view_def js_slice_def Let_def min_def)

text \<open>
  C3, as stated, at 501 collected frames: the occurrence view has 500 rows, not 501.
\<close>

theorem occurrence_transform_truncates:
  "length (transform occurrence_view (replicate 501 frameA)) = 500
   \<and> length (transform occurrence_view (replicate 501 frameA)) \<noteq> length (replicate 501 frameA)"
  by (simp add: occurrence_transform)

text \<open>
  C3 (amended): the occurrence view has one row per collected frame among the first 500,
  in order and without deduplication: its row count is \<open>min 500 n\<close>, and up to 500 frames
  every frame has its row.
\<close>

theorem occurrence_transform_first_500:
  "transform occurrence_view data = map row_of_frame (take 500 data)
   \<and> length (transform occurrence_view data) = min 500 (length data)
   \<and> (length data \<le> 500 \<longrightarrow> transform occurrence_view data = map row_of_frame data)"
  by (simp add: occurrence_transform min_def)

theorem occurrence_transform_first_500_witness:
  "transform occurrence_view [frameA, frameB, frameA]
     = [row_of_frame frameA, row_of_frame frameB, row_of_frame frameA]"
  using occurrence_transform_first_500[of "[frameA, frameB, frameA]"] by simp

section \<open>Store effects of the pipeline stages\<close>

lemma filter_stage_fresh:
  "a < length h \<Longrightarrow> filter_stage p a h = (b, h') \<Longrightarrow> b \<noteq> a \<and> h' ! a = h ! a"
  by (auto simp: filter_stage_def alloc_def nth_append)

lemma page_stage_fresh:
  "a < length h \<Longrightarrow> page_stage c a h = (b, h') \<Longrightarrow> b \<noteq> a \<and> h' ! a = h ! a"
  by (auto simp: page_stage_def alloc_def nth_append)

lemma sort_stage_in_place:
  "a < length h \<Longrightarrow> sort_stage cmp a h = (b, h') \<Longrightarrow> b = a \<and> h' ! a = js_sort cmp (h ! a)"
  by (auto simp: sort_stage_def)

text \<open>
  C4, at the rows \<open>[1, 2, 3]\<close> left by the search, a filter that keeps every row and a
  descending comparator: the sort stage returns the array of the filter stage itself, and
  the elements of that array, \<open>[1, 2, 3]\<close> after the filter stage, are \<open>[3, 2, 1]\<close> after the
  sort stage. The array produced by the filter stage is changed in place.
\<close>

theorem sort_stage_mutates_filteredData:
  "(let h0 = [[1, 2, 3 :: int]];
        (filtered, h1) = filter_stage (\<lambda>row. True) 0 h0;
        (sorted_rows, h2) = sort_stage (\<lambda>a b. b - a) filtered h1
    in sorted_rows = filtered \<and> h1 ! filtered = [1, 2, 3] \<and> h2 ! filtered = [3, 2, 1])"
  by (simp add: filter_stage_def sort_stage_def alloc_def js_sort_def)

section \<open>Sort of the transactions table\<close>

lemma transactions_sort_unknown_column:
  "sort_key (transactions_sort s) \<in> set SORTABLE_COLUMNS"
  by (auto simp: transactions_sort_def Let_def SORTABLE_COLUMNS_def split: list.splits prod.splits)

text \<open>
  C5, at the sort request \<open>foo\<close>, an unknown column: the effective sort is \<open>count()\<close>
  ascending, while the default sort, taken for an absent request, is \<open>count()\<close> descending.
\<close>

theorem transactions_sort_unknown_keeps_order:
  "transactions_sort ''foo'' = \<lparr>sort_key = ''count()'', sort_order = Asc\<rparr>
   \<and> transactions_sort [] = \<lparr>sort_key = ''count()'', sort_order = Desc\<rparr>"
  by (simp add: transactions_sort_def decodeScalar_def SORTABLE_COLUMNS_def)

section \<open>View selection\<close>

text \<open>
  C6, as stated, at a state with the type filter \<open>application\<close> selected: after the symbol
  view is selected the selection is still active, so not every part of the state is back
  at its default.
\<close>

theorem view_onChange_keeps_filters:
  "\<not> (searchQuery (view_onChange symbol_option state0) = Some []
      \<and> filters_type (view_onChange symbol_option state0) = None
      \<and> filters_image (view_onChange symbol_option state0) = None
      \<and> functionsSort (view_onChange symbol_option state0) = None)"
  by (simp add: view_onChange_def setSearchQuery_def setPaginationCursor_def setGroupByView_def
      state0_def)

text \<open>
  C6 (amended): selecting a view sets the search query to the empty string, clears the
  page cursor and stores the view's name; the column filter selections and the sort
  parameter are left as they were.
\<close>

theorem view_onChange_resets:
  "searchQuery (view_onChange opt s) = Some []
   \<and> paginationCursor (view_onChange opt s) = None
   \<and> groupByViewKey (view_onChange opt s) = Some (option_value opt)
   \<and> typeFilter (view_onChange opt s) = typeFilter s
   \<and> imageFilter (view_onChange opt s) = imageFilter s
   \<and> filters_type (view_onChange opt s) = filters_type s
   \<and> filters_image (view_onChange opt s) = filters_image s
   \<and> functionsSort (view_onChange opt s) = functionsSort s"
  by (simp add: view_onChange_def setSearchQuery_def setPaginationCursor_def setGroupByView_def)

section \<open>Column filter predicate\<close>

lemma filterPredicate_iff:
  "filterPredicate cols filters row \<longleftrightarrow>
     (\<forall>c \<in> set cols. \<forall>sel. filters c = Some sel \<and> sel \<noteq> [] \<longrightarrow> in_selection sel (row c))"
  by (induction cols) (auto split: option.splits)

text \<open>
  C7: the predicate accepts a row iff, for every filterable column with a non-empty
  selection, the row's value for the column is in the selection; for the table's columns
  \<open>type\<close> and \<open>image\<close> an empty or unset selection imposes no constraint, so with an empty
  type selection and no image selection every row passes, whatever its image, and the
  filter stage keeps all rows.
\<close>

theorem filterPredicate_selection:
  "(filterPredicate cols filters row \<longleftrightarrow>
     (\<forall>c \<in> set cols. \<forall>sel. filters c = Some sel \<and> sel \<noteq> [] \<longrightarrow> in_selection sel (row c)))
   \<and> (filterPredicate [Type, Image] (table_filters type_sel image_sel) row \<longleftrightarrow>
        (\<forall>sel. type_sel = Some sel \<and> sel \<noteq> [] \<longrightarrow> in_selection sel (row Type))
      \<and> (\<forall>sel. image_sel = Some sel \<and> sel \<noteq> [] \<longrightarrow> in_selection sel (row Image)))
   \<and> filterPredicate [Type, Image] (table_filters (Some []) None) row
   \<and> (filterPredicate [Type, Image] (table_filters (Some []) image_sel) row
        \<longleftrightarrow> filterPredicate [Type, Image] (table_filters None image_sel) row)
   \<and> filteredData (Some []) None rows = rows"
  unfolding filterPredicate_iff filteredData_def by (simp add: table_filters_def)

theorem filterPredicate_selection_witness:
  "filterPredicate [Type, Image] (table_filters (Some [''application'']) (Some [''app'', ''libc'']))
      (row_of_frame frameA)
   \<and> \<not> filterPredicate [Type, Image] (table_filters (Some [''application'']) (Some [''app'', ''libc'']))
      (row_of_frame frameB)"
  using filterPredicate_selection[of "[Type, Image]"
      "table_filters (Some [''application'']) (Some [''app'', ''libc''])"
      "row_of_frame frameA" "Some [''application'']" "Some [''app'', ''libc'']"]
    filterPredicate_selection[of "[Type, Image]"
      "table_filters (Some [''application'']) (Some [''app'', ''libc''])"
      "row_of_frame frameB" "Some [''application'']" "Some [''app'', ''libc'']"]
  by (simp add: table_filters_def in_selection_def row_of_frame_def frameA_def frameB_def)

section \<open>View resolution\<close>

lemma groupByView_known:
  "groupByView aggregate ''occurrence'' = Own occurrence_view"
  "groupByView aggregate ''symbol'' = Own (symbol_view aggregate)"
  "groupByView aggregate ''package'' = Own (package_view aggregate)"
  "groupByView aggregate ''file'' = Own (file_view aggregate)"
  by (simp_all add: groupByView_def js_get_def GROUP_BY_OPTIONS_def)

lemma groupByView_fallback:
  "k \<notin> set (map fst (GROUP_BY_OPTIONS aggregate)) \<Longrightarrow> k \<notin> set Object_prototype
    \<Longrightarrow> groupByView aggregate k = Own occurrence_view"
  by (auto simp add: groupByView_def js_get_def GROUP_BY_OPTIONS_def split: option.splits)

text \<open>
  C10, at the view name \<open>constructor\<close>, which is not a key of the registry: the lookup finds
  the property every object literal inherits from \<open>Object.prototype\<close>, which is neither
  \<open>null\<close> nor \<open>undefined\<close>, so the resolution does not fall back to the occurrence view.
\<close>

theorem groupByView_inherited_property:
  "groupByView aggregate ''constructor'' = Inherited ''constructor''
   \<and> groupByView aggregate ''constructor'' \<noteq> Own occurrence_view"
  by (simp add: groupByView_def js_get_def GROUP_BY_OPTIONS_def Object_prototype_def)

end
